theory Spec2Isabelle
  imports Complex_Main
begin

section \<open>Python values held in a dataframe cell\<close>

text \<open>
  A Python float is an IEEE binary64 value: a finite number, one of the two infinities,
  or NaN. A finite double is modelled by the real number it denotes; the two zeros are
  not told apart. Comparisons of doubles are exact. A decimal literal of the source
  denotes the double nearest to it, and an arithmetic operation returns the double
  nearest to the exact result: both are \<open>round_double\<close> below.
\<close>

datatype pyfloat = Fin real | PosInf | NegInf | NaN

datatype pyval = PFloat pyfloat | PInt int | PStr string | PNone

datatype error =
  KeyError | ValueError | TypeError | IndexError | ZeroDivisionError | OverflowError

text \<open>IEEE comparisons: every comparison with NaN is false.\<close>

fun float_lt :: "pyfloat \<Rightarrow> pyfloat \<Rightarrow> bool" where
  "float_lt (Fin a) (Fin b) = (a < b)"
| "float_lt (Fin a) PosInf = True"
| "float_lt NegInf (Fin b) = True"
| "float_lt NegInf PosInf = True"
| "float_lt _ _ = False"

definition float_eq :: "pyfloat \<Rightarrow> pyfloat \<Rightarrow> bool" where
  "float_eq a b = (a \<noteq> NaN \<and> a = b)"

definition float_le :: "pyfloat \<Rightarrow> pyfloat \<Rightarrow> bool" where
  "float_le a b = (float_lt a b \<or> float_eq a b)"

subsection \<open>Rounding to the nearest double\<close>

text \<open>\<open>log2_floor n\<close> is the position of the highest set bit of a positive \<open>n\<close>.\<close>

fun log2_floor :: "nat \<Rightarrow> nat" where
  "log2_floor n = (if n < 2 then 0 else Suc (log2_floor (n div 2)))"

declare log2_floor.simps [simp del]

text \<open>
  The binary exponent of a non-zero real \<open>x\<close>: the integer \<open>e\<close> for which \<open>\<bar>x\<bar>\<close> is at
  least \<open>2 ^ e\<close> and below \<open>2 ^ (e + 1)\<close>, computed on integers.
\<close>

definition exponent :: "real \<Rightarrow> int" where
  "exponent x =
     (if 1 \<le> \<bar>x\<bar> then int (log2_floor (nat \<lfloor>\<bar>x\<bar>\<rfloor>))
      else - int (Suc (log2_floor (nat (\<lceil>1 / \<bar>x\<bar>\<rceil> - 1)))))"

text \<open>The nearest integer, a tie going to the even one.\<close>

definition round_half_even :: "real \<Rightarrow> int" where
  "round_half_even n =
     (let f = \<lfloor>n\<rfloor>; d = n - of_int f
      in if d < 1 / 2 then f
         else if 1 / 2 < d then f + 1
         else if even f then f else f + 1)"

text \<open>
  The doubles of binary exponent \<open>e\<close> are the multiples of \<open>2 ^ (e - 52)\<close>; below
  \<open>2 ^ (- 1022)\<close> the spacing stays that of the exponent \<open>- 1022\<close> (the subnormal
  numbers).
\<close>

definition spacing :: "real \<Rightarrow> real" where
  "spacing x =
     (let e = max (exponent x) (- 1022)
      in if 52 \<le> e then 2 ^ nat (e - 52) else 1 / 2 ^ nat (52 - e))"

text \<open>
  Round to nearest, ties to even, in binary64: the multiple of the spacing nearest to
  the number. A result of magnitude \<open>2 ^ 1024\<close> or more is an infinity.
\<close>

definition round_double :: "real \<Rightarrow> pyfloat" where
  "round_double x =
     (if x = 0 then Fin 0
      else let q = spacing x;
               r = of_int (round_half_even (\<bar>x\<bar> / q)) * q
           in if 2 ^ 1024 \<le> r then (if 0 < x then PosInf else NegInf)
              else Fin (if 0 < x then r else - r))"

subsection \<open>Arithmetic on floats\<close>

text \<open>
  Python's \<^verbatim>\<open>+\<close>, \<^verbatim>\<open>*\<close> and \<^verbatim>\<open>/\<close> on floats. Addition and multiplication never raise;
  an overflow gives an infinity. Division raises ZeroDivisionError when the divisor is
  zero, whatever the dividend.
\<close>

fun float_add :: "pyfloat \<Rightarrow> pyfloat \<Rightarrow> pyfloat" where
  "float_add (Fin a) (Fin b) = round_double (a + b)"
| "float_add NaN b = NaN"
| "float_add a NaN = NaN"
| "float_add PosInf NegInf = NaN"
| "float_add NegInf PosInf = NaN"
| "float_add PosInf b = PosInf"
| "float_add a PosInf = PosInf"
| "float_add NegInf b = NegInf"
| "float_add a NegInf = NegInf"

fun float_mul :: "pyfloat \<Rightarrow> pyfloat \<Rightarrow> pyfloat" where
  "float_mul (Fin a) (Fin b) = round_double (a * b)"
| "float_mul NaN b = NaN"
| "float_mul a NaN = NaN"
| "float_mul (Fin a) PosInf = (if a = 0 then NaN else if 0 < a then PosInf else NegInf)"
| "float_mul (Fin a) NegInf = (if a = 0 then NaN else if 0 < a then NegInf else PosInf)"
| "float_mul PosInf (Fin b) = (if b = 0 then NaN else if 0 < b then PosInf else NegInf)"
| "float_mul NegInf (Fin b) = (if b = 0 then NaN else if 0 < b then NegInf else PosInf)"
| "float_mul PosInf PosInf = PosInf"
| "float_mul PosInf NegInf = NegInf"
| "float_mul NegInf PosInf = NegInf"
| "float_mul NegInf NegInf = PosInf"

fun float_div :: "pyfloat \<Rightarrow> pyfloat \<Rightarrow> error + pyfloat" where
  "float_div a (Fin b) =
     (if b = 0 then Inl ZeroDivisionError
      else Inr (case a of
                  Fin x \<Rightarrow> round_double (x / b)
                | PosInf \<Rightarrow> if 0 < b then PosInf else NegInf
                | NegInf \<Rightarrow> if 0 < b then NegInf else PosInf
                | NaN \<Rightarrow> NaN))"
| "float_div (Fin a) PosInf = Inr (Fin 0)"
| "float_div (Fin a) NegInf = Inr (Fin 0)"
| "float_div a b = Inr NaN"

text \<open>
  The builtin \<^verbatim>\<open>float(x)\<close>. On a float it is the identity. On an int it raises
  OverflowError when the int rounds to a magnitude of \<open>2 ^ 1024\<close> or more. On a
  string it parses, and raises ValueError when the text is no float literal: the parser
  is a parameter \<open>parse\<close> of the model. On None it raises TypeError. The result
  \<open>None\<close> stands for any of these exceptions.
\<close>

definition int_float_bound :: int where
  "int_float_bound = 2 ^ 1024 - 2 ^ 970"

text \<open>
  The conversion of the int operand of a mixed \<^verbatim>\<open>int * float\<close>: the nearest double, or
  OverflowError.
\<close>

definition int_to_float :: "int \<Rightarrow> error + pyfloat" where
  "int_to_float i =
     (if \<bar>i\<bar> < int_float_bound then Inr (round_double (of_int i)) else Inl OverflowError)"

fun py_float :: "(string \<Rightarrow> pyfloat option) \<Rightarrow> pyval \<Rightarrow> pyfloat option" where
  "py_float parse (PFloat f) = Some f"
| "py_float parse (PInt i) =
     (if \<bar>i\<bar> < int_float_bound then Some (Fin (of_int i)) else None)"
| "py_float parse (PStr s) = parse s"
| "py_float parse PNone = None"

section \<open>The per-cell derivations\<close>

text \<open>
  \<^verbatim>\<open>
  def categorize_review(x):
      try:
          x = float(x)
      except:
          return "Unknown"
      if x <= 2:
          return "Low"
      elif x == 3:
          return "Medium"
      else:
          return "High"
  \<close>
\<close>

definition categorize_review :: "(string \<Rightarrow> pyfloat option) \<Rightarrow> pyval \<Rightarrow> string" where
  "categorize_review parse x =
     (case py_float parse x of
        None \<Rightarrow> ''Unknown''
      | Some x' \<Rightarrow>
          if float_le x' (Fin 2) then ''Low''
          else if float_eq x' (Fin 3) then ''Medium''
          else ''High'')"

text \<open>
  \<^verbatim>\<open>
  def map_tax(x):
      try:
          x = float(x)
      except:
          return "Unknown"
      if x <= 95.76:
          return "Low"
      elif x <= 349.97:
          return "Medium"
      else:
          return "High"
  \<close>
  The literals \<^verbatim>\<open>95.76\<close> and \<^verbatim>\<open>349.97\<close> are the doubles nearest to these decimals.
\<close>

definition map_tax :: "(string \<Rightarrow> pyfloat option) \<Rightarrow> pyval \<Rightarrow> string" where
  "map_tax parse x =
     (case py_float parse x of
        None \<Rightarrow> ''Unknown''
      | Some x' \<Rightarrow>
          if float_le x' (round_double 95.76) then ''Low''
          else if float_le x' (round_double 349.97) then ''Medium''
          else ''High'')"

section \<open>Dataframes\<close>

text \<open>
  A dataframe is its columns in order, each a name and the cells of its rows. The frames
  modelled carry one column per name. Dataframes are mutable objects: the heap gives the
  current contents of the dataframe at each object identity, and a function that receives
  a dataframe receives its identity.
\<close>

type_synonym dataframe = "(string \<times> pyval list) list"

type_synonym heap = "nat \<Rightarrow> dataframe"

text \<open>The heap in which every dataframe has no column.\<close>

definition empty_heap :: heap where
  "empty_heap d = []"

definition columns :: "dataframe \<Rightarrow> string list" where
  "columns df = map fst df"

text \<open>\<^verbatim>\<open>df[col]\<close> raises KeyError when the column is absent.\<close>

definition getitem :: "dataframe \<Rightarrow> string \<Rightarrow> error + pyval list" where
  "getitem df col = (case map_of df col of None \<Rightarrow> Inl KeyError | Some cells \<Rightarrow> Inr cells)"

text \<open>
  \<^verbatim>\<open>df[col] = cells\<close> replaces the cells of an existing column and appends a new
  column otherwise.
\<close>

definition setitem :: "dataframe \<Rightarrow> string \<Rightarrow> pyval list \<Rightarrow> dataframe" where
  "setitem df col cells =
     (if col \<in> set (columns df)
      then map (\<lambda>(name, old). if name = col then (name, cells) else (name, old)) df
      else df @ [(col, cells)])"

section \<open>The column resolver\<close>

text \<open>
  \<^verbatim>\<open>
  def first_col(df, candidates):
      for c in candidates:
          if c in df.columns:
              return c
      return None
  \<close>
\<close>

fun first_col :: "dataframe \<Rightarrow> string list \<Rightarrow> string option" where
  "first_col df [] = None"
| "first_col df (c # candidates) =
     (if c \<in> set (columns df) then Some c else first_col df candidates)"

section \<open>Review level and tax level\<close>

text \<open>
  \<^verbatim>\<open>
  def ensure_review_level(df, reviews_col):
      if "Review_Level" in df.columns:
          return df
      ...
      df["Review_Level"] = df[reviews_col].apply(categorize_review)
      return df
  \<close>
  The result is the raised exception or the identity of the returned dataframe, with the
  heap after the call.
\<close>

definition ensure_review_level ::
  "(string \<Rightarrow> pyfloat option) \<Rightarrow> nat \<Rightarrow> string \<Rightarrow> heap \<Rightarrow> (error + nat) \<times> heap" where
  "ensure_review_level parse df reviews_col h =
     (if ''Review_Level'' \<in> set (columns (h df)) then (Inr df, h)
      else case getitem (h df) reviews_col of
             Inl e \<Rightarrow> (Inl e, h)
           | Inr cells \<Rightarrow>
               (Inr df,
                h(df := setitem (h df) ''Review_Level''
                          (map (\<lambda>x. PStr (categorize_review parse x)) cells))))"

text \<open>
  \<^verbatim>\<open>
  def ensure_tax_level(df, tax_col):
      if "Tax_Level" in df.columns:
          return df
      ...
      df["Tax_Level"] = df[tax_col].apply(map_tax)
      return df
  \<close>
\<close>

definition ensure_tax_level ::
  "(string \<Rightarrow> pyfloat option) \<Rightarrow> nat \<Rightarrow> string \<Rightarrow> heap \<Rightarrow> (error + nat) \<times> heap" where
  "ensure_tax_level parse df tax_col h =
     (if ''Tax_Level'' \<in> set (columns (h df)) then (Inr df, h)
      else case getitem (h df) tax_col of
             Inl e \<Rightarrow> (Inl e, h)
           | Inr cells \<Rightarrow>
               (Inr df,
                h(df := setitem (h df) ''Tax_Level''
                          (map (\<lambda>x. PStr (map_tax parse x)) cells))))"

section \<open>Income category\<close>

text \<open>
  The income column is numeric: its cells are floats (NaN for a missing value) or ints.
  On a column of any other cells \<^verbatim>\<open>pd.cut\<close> raises; the model raises ValueError.
\<close>

fun to_numeric :: "pyval \<Rightarrow> pyfloat option" where
  "to_numeric (PFloat f) = Some f"
| "to_numeric (PInt i) = Some (Fin (of_int i))"
| "to_numeric (PStr s) = None"
| "to_numeric PNone = None"

fun numeric_values :: "pyval list \<Rightarrow> pyfloat list option" where
  "numeric_values [] = Some []"
| "numeric_values (c # cells) =
     (case to_numeric c of
        None \<Rightarrow> None
      | Some f \<Rightarrow> (case numeric_values cells of None \<Rightarrow> None | Some fs \<Rightarrow> Some (f # fs)))"

text \<open>\<^verbatim>\<open>Series.max()\<close> skips NaN, and is NaN when nothing is left.\<close>

definition series_max :: "pyfloat list \<Rightarrow> pyfloat" where
  "series_max x =
     (case filter (\<lambda>v. v \<noteq> NaN) x of
        [] \<Rightarrow> NaN
      | v # vs \<Rightarrow> fold (\<lambda>w m. if float_lt m w then w else m) vs v)"

text \<open>
  \<^verbatim>\<open>bins.searchsorted(x, side="left")\<close>: the insertion point of a value in the sorted
  bin edges, which is the number of edges strictly below it.
\<close>

definition searchsorted_left :: "pyfloat list \<Rightarrow> pyfloat \<Rightarrow> nat" where
  "searchsorted_left bins v = length (takeWhile (\<lambda>b. float_lt b v) bins)"

text \<open>
  One cell of \<^verbatim>\<open>pd.cut(x, bins=bins, labels=labels, include_lowest=True)\<close>, with
  the default \<^verbatim>\<open>right=True\<close>: the index of the bin is the insertion point, set to 1
  for a value equal to the lowest edge; NaN, index 0 (below the lowest edge) and index
  \<open>length bins\<close> (above the highest edge) give a missing category, which is NaN.
\<close>

definition bin_label :: "pyfloat list \<Rightarrow> string list \<Rightarrow> pyfloat \<Rightarrow> pyfloat \<Rightarrow> pyval" where
  "bin_label bins labels lowest v =
     (let ids = (if float_eq v lowest then 1 else searchsorted_left bins v)
      in if v = NaN \<or> ids = length bins \<or> ids = 0 then PFloat NaN
         else PStr (labels ! (ids - 1)))"

text \<open>
  \<^verbatim>\<open>pd.cut\<close> raises ValueError when the edges do not increase monotonically (an
  edge that is NaN counts as such), when an edge is repeated, when a label is repeated
  and when there is not one label per bin.
\<close>

definition pd_cut :: "pyfloat list \<Rightarrow> pyfloat list \<Rightarrow> string list \<Rightarrow> error + pyval list" where
  "pd_cut x bins labels =
     (if NaN \<in> set bins \<or> \<not> sorted_wrt float_le bins then Inl ValueError
      else if \<not> distinct bins \<and> length bins \<noteq> 2 then Inl ValueError
      else case bins of
             [] \<Rightarrow> Inl IndexError
           | lowest # _ \<Rightarrow>
               if \<not> distinct labels \<or> length labels + 1 \<noteq> length bins then Inl ValueError
               else Inr (map (bin_label bins labels lowest) x))"

text \<open>
  \<^verbatim>\<open>
  def ensure_income_category(df, income_col):
      if "Income_Category" in df.columns:
          return df
      bins = [0, 38000, 69000, 99000, df[income_col].max()]
      labels = ['Low', 'Medium', 'High', 'Very High']
      df["Income_Category"] = pd.cut(df[income_col], bins=bins, labels=labels, include_lowest=True)
      return df
  \<close>
\<close>

definition ensure_income_category :: "nat \<Rightarrow> string \<Rightarrow> heap \<Rightarrow> (error + nat) \<times> heap" where
  "ensure_income_category df income_col h =
     (if ''Income_Category'' \<in> set (columns (h df)) then (Inr df, h)
      else case getitem (h df) income_col of
             Inl e \<Rightarrow> (Inl e, h)
           | Inr cells \<Rightarrow>
               (case numeric_values cells of
                  None \<Rightarrow> (Inl ValueError, h)
                | Some x \<Rightarrow>
                    let bins = [Fin 0, Fin 38000, Fin 69000, Fin 99000, series_max x];
                        labels = [''Low'', ''Medium'', ''High'', ''Very High'']
                    in case pd_cut x bins labels of
                         Inl e \<Rightarrow> (Inl e, h)
                       | Inr cats \<Rightarrow> (Inr df, h(df := setitem (h df) ''Income_Category'' cats))))"

section \<open>The prediction page's derived fields\<close>

text \<open>
  \<^verbatim>\<open>
  Price = Quantity * Unit_Price
  total_price = Price + Tax
  # avoid division by zero; follow your formula: Tax / (Price + 1)
  tax_ratio = Tax / (Price + 1)
  \<close>
  Quantity is an int, Unit_Price and Tax are floats. Quantity is converted to a float
  for the product, and \<^verbatim>\<open>1\<close> for the sum. Each operation rounds to a double.
\<close>

record derived =
  Price :: pyfloat
  total_price :: pyfloat
  tax_ratio :: pyfloat

definition auto_calculations :: "int \<Rightarrow> pyfloat \<Rightarrow> pyfloat \<Rightarrow> error + derived" where
  "auto_calculations Quantity Unit_Price Tax =
     (case int_to_float Quantity of
        Inl e \<Rightarrow> Inl e
      | Inr quantity \<Rightarrow>
          let price = float_mul quantity Unit_Price;
              total = float_add price Tax
          in case float_div Tax (float_add price (Fin 1)) of
               Inl e \<Rightarrow> Inl e
             | Inr ratio \<Rightarrow> Inr \<lparr>Price = price, total_price = total, tax_ratio = ratio\<rparr>)"

section \<open>Properties of the per-cell derivations\<close>

subsection \<open>Rounding\<close>

lemma log2_floor_bounds:
  "0 < n \<Longrightarrow> 2 ^ log2_floor n \<le> n \<and> n < 2 ^ Suc (log2_floor n)"
proof (induction n rule: log2_floor.induct)
  case (1 n)
  show ?case
  proof (cases "n < 2")
    case True
    with "1.prems" have "n = 1" by simp
    then show ?thesis by (simp add: log2_floor.simps)
  next
    case False
    then have pos: "0 < n div 2" by simp
    from "1.IH" [OF False pos]
    have lo: "2 ^ log2_floor (n div 2) \<le> n div 2"
      and hi: "n div 2 < 2 ^ Suc (log2_floor (n div 2))" by simp_all
    from False have eq: "log2_floor n = Suc (log2_floor (n div 2))"
      by (simp add: log2_floor.simps)
    have "2 * 2 ^ log2_floor (n div 2) \<le> 2 * (n div 2)" using lo by simp
    also have "\<dots> \<le> n" by simp
    finally have a: "2 ^ log2_floor n \<le> n" by (simp add: eq)
    from hi have "Suc (n div 2) \<le> 2 ^ Suc (log2_floor (n div 2))" by simp
    then have "2 * Suc (n div 2) \<le> 2 * 2 ^ Suc (log2_floor (n div 2))" by simp
    moreover have "n < 2 * Suc (n div 2)" by simp
    ultimately have b: "n < 2 ^ Suc (log2_floor n)" by (simp add: eq)
    from a b show ?thesis by simp
  qed
qed

lemma round_half_even_floor:
  "\<lfloor>n\<rfloor> \<le> round_half_even n \<and> round_half_even n \<le> \<lfloor>n\<rfloor> + 1"
  by (simp add: round_half_even_def Let_def)

lemma round_half_even_nearest:
  "\<bar>of_int (round_half_even n) - n\<bar> \<le> 1 / 2"
  unfolding round_half_even_def Let_def by (auto split: if_splits)

lemmas round_double_eval =
  round_double_def spacing_def exponent_def log2_floor.simps round_half_even_def Let_def

lemma float_le_Fin [simp]: "float_le (Fin a) (Fin b) = (a \<le> b)"
  by (auto simp: float_le_def float_eq_def)

lemma float_eq_Fin [simp]: "float_eq (Fin a) (Fin b) = (a = b)"
  by (simp add: float_eq_def)

lemma float_lt_imp_not_le: "float_lt a b \<Longrightarrow> \<not> float_le b a"
  by (cases a; cases b) (auto simp: float_le_def float_eq_def)

lemma float_lt_imp_not_eq: "float_lt a b \<Longrightarrow> \<not> float_eq b a"
  by (cases a; cases b) (auto simp: float_eq_def)

lemma float_le_trans: "float_le a b \<Longrightarrow> float_le b c \<Longrightarrow> float_le a c"
  by (cases a; cases b; cases c) (auto simp: float_le_def float_eq_def)

lemma float_lt_le_trans: "float_lt a b \<Longrightarrow> float_le b c \<Longrightarrow> float_lt a c"
  by (cases a; cases b; cases c) (auto simp: float_le_def float_eq_def)

text \<open>
  C4. The review-level derivation is total: it returns a label on every input and no
  exception of \<^verbatim>\<open>float(x)\<close> escapes. When the conversion fails the label is
  "Unknown"; when it yields \<open>v\<close>, the label is "Low" for \<open>v \<le> 2\<close>, "Medium" for
  \<open>v = 3\<close> and "High" for \<open>v > 3\<close>.
\<close>

theorem categorize_review_levels:
  "categorize_review parse x \<in> {''Low'', ''Medium'', ''High'', ''Unknown''} \<and>
   (py_float parse x = None \<longrightarrow> categorize_review parse x = ''Unknown'') \<and>
   (\<forall>v. py_float parse x = Some v \<longrightarrow>
      (float_le v (Fin 2) \<longrightarrow> categorize_review parse x = ''Low'') \<and>
      (float_eq v (Fin 3) \<longrightarrow> categorize_review parse x = ''Medium'') \<and>
      (float_lt (Fin 3) v \<longrightarrow> categorize_review parse x = ''High''))"
proof -
  have "categorize_review parse x = ''High''"
    if "py_float parse x = Some v" "float_lt (Fin 3) v" for v
  proof -
    have "\<not> float_le v (Fin 2)"
    proof
      assume "float_le v (Fin 2)"
      with that(2) have "float_lt (Fin 3) (Fin 2)" by (rule float_lt_le_trans)
      then show False by simp
    qed
    with that(1) show ?thesis by (simp add: categorize_review_def float_lt_imp_not_eq [OF that(2)])
  qed
  moreover have "categorize_review parse x = ''Medium''"
    if "py_float parse x = Some v" "float_eq v (Fin 3)" for v
    using that by (cases v) (simp_all add: categorize_review_def float_eq_def)
  ultimately show ?thesis
    by (auto simp: categorize_review_def split: option.splits)
qed

theorem categorize_review_levels_witness:
  "py_float (\<lambda>s. None) PNone = None \<and>
   categorize_review (\<lambda>s. None) PNone = ''Unknown'' \<and>
   py_float (\<lambda>s. None) (PInt 2) = Some (Fin 2) \<and> float_le (Fin 2) (Fin 2) \<and>
   categorize_review (\<lambda>s. None) (PInt 2) = ''Low'' \<and>
   py_float (\<lambda>s. None) (PFloat (Fin 3)) = Some (Fin 3) \<and> float_eq (Fin 3) (Fin 3) \<and>
   categorize_review (\<lambda>s. None) (PFloat (Fin 3)) = ''Medium'' \<and>
   py_float (\<lambda>s. None) (PFloat PosInf) = Some PosInf \<and> float_lt (Fin 3) PosInf \<and>
   categorize_review (\<lambda>s. None) (PFloat PosInf) = ''High''"
  using categorize_review_levels [of "\<lambda>s. None" PNone]
    categorize_review_levels [of "\<lambda>s. None" "PInt 2"]
    categorize_review_levels [of "\<lambda>s. None" "PFloat (Fin 3)"]
    categorize_review_levels [of "\<lambda>s. None" "PFloat PosInf"]
  by (simp add: int_float_bound_def)

lemma tax_thresholds:
  "round_double 95.76 = Fin (6738510942453105 / 2 ^ 46)"
  "round_double 349.97 = Fin (1539184337491067 / 2 ^ 42)"
  by (simp_all add: round_double_eval)

text \<open>
  C5. The tax-level derivation is total: it returns a label on every input and no
  exception of \<^verbatim>\<open>float(x)\<close> escapes. When the conversion fails the label is
  "Unknown"; when it yields \<open>v\<close>, the label is "Low" for \<open>v \<le> 95.76\<close>, "Medium"
  for \<open>95.76 < v \<le> 349.97\<close> and "High" for \<open>v > 349.97\<close>, where 95.76 and 349.97 are
  the Python floats, that is the doubles nearest to the decimals.
\<close>

theorem map_tax_levels:
  "map_tax parse x \<in> {''Low'', ''Medium'', ''High'', ''Unknown''} \<and>
   (py_float parse x = None \<longrightarrow> map_tax parse x = ''Unknown'') \<and>
   (\<forall>v. py_float parse x = Some v \<longrightarrow>
      (float_le v (round_double 95.76) \<longrightarrow> map_tax parse x = ''Low'') \<and>
      (float_lt (round_double 95.76) v \<and> float_le v (round_double 349.97) \<longrightarrow>
         map_tax parse x = ''Medium'') \<and>
      (float_lt (round_double 349.97) v \<longrightarrow> map_tax parse x = ''High''))"
proof -
  have high: "map_tax parse x = ''High''"
    if "py_float parse x = Some v" "float_lt (round_double 349.97) v" for v
  proof -
    have "\<not> float_le v (round_double 349.97)"
      using that(2) by (rule float_lt_imp_not_le)
    moreover have "\<not> float_le v (round_double 95.76)"
    proof
      assume "float_le v (round_double 95.76)"
      with that(2) have "float_lt (round_double 349.97) (round_double 95.76)"
        by (rule float_lt_le_trans)
      then show False unfolding tax_thresholds by simp
    qed
    ultimately show ?thesis using that(1) by (simp add: map_tax_def)
  qed
  have medium: "map_tax parse x = ''Medium''"
    if "py_float parse x = Some v" "float_lt (round_double 95.76) v"
      "float_le v (round_double 349.97)" for v
    using that float_lt_imp_not_le [OF that(2)] by (simp add: map_tax_def)
  show ?thesis
    using high medium by (auto simp: map_tax_def split: option.splits)
qed

theorem map_tax_levels_witness:
  "py_float (\<lambda>s. None) (PStr ''n/a'') = None \<and>
   map_tax (\<lambda>s. None) (PStr ''n/a'') = ''Unknown'' \<and>
   py_float (\<lambda>s. None) (PFloat (round_double 95.76)) = Some (round_double 95.76) \<and>
   float_le (round_double 95.76) (round_double 95.76) \<and>
   map_tax (\<lambda>s. None) (PFloat (round_double 95.76)) = ''Low'' \<and>
   py_float (\<lambda>s. None) (PFloat (round_double 349.97)) = Some (round_double 349.97) \<and>
   float_lt (round_double 95.76) (round_double 349.97) \<and>
   float_le (round_double 349.97) (round_double 349.97) \<and>
   map_tax (\<lambda>s. None) (PFloat (round_double 349.97)) = ''Medium'' \<and>
   py_float (\<lambda>s. None) (PInt 350) = Some (Fin 350) \<and>
   float_lt (round_double 349.97) (Fin 350) \<and>
   map_tax (\<lambda>s. None) (PInt 350) = ''High''"
  using map_tax_levels [of "\<lambda>s. None" "PStr ''n/a''"]
    map_tax_levels [of "\<lambda>s. None" "PFloat (round_double 95.76)"]
    map_tax_levels [of "\<lambda>s. None" "PFloat (round_double 349.97)"]
    map_tax_levels [of "\<lambda>s. None" "PInt 350"]
  unfolding tax_thresholds by (simp add: int_float_bound_def)

text \<open>
  C9. A rating strictly between 2 and 3 is neither \<open>\<le> 2\<close> nor \<open>= 3\<close>, so the
  review level falls to the last branch, "High". NaN converts to a float and fails every
  comparison, so both the review level and the tax level of NaN are "High", not
  "Unknown".
\<close>

theorem review_gap_and_nan_are_high:
  "(py_float parse x = Some (Fin r) \<and> 2 < r \<and> r < 3 \<longrightarrow>
      categorize_review parse x = ''High'') \<and>
   py_float parse (PFloat NaN) = Some NaN \<and>
   (\<forall>c. \<not> float_le NaN c \<and> \<not> float_eq NaN c \<and> \<not> float_lt NaN c \<and> \<not> float_lt c NaN) \<and>
   categorize_review parse (PFloat NaN) = ''High'' \<and>
   map_tax parse (PFloat NaN) = ''High''"
  by (auto simp: categorize_review_def map_tax_def float_le_def float_eq_def)

theorem review_gap_and_nan_are_high_witness:
  "py_float (\<lambda>s. None) (PFloat (Fin 2.5)) = Some (Fin 2.5) \<and> (2::real) < 2.5 \<and> (2.5::real) < 3 \<and>
   categorize_review (\<lambda>s. None) (PFloat (Fin 2.5)) = ''High''"
  using review_gap_and_nan_are_high [of "\<lambda>s. None" "PFloat (Fin 2.5)" "2.5"]
  by simp

section \<open>Properties of the column resolver and of the derived fields\<close>

lemma first_col_None_iff:
  "first_col df candidates = None \<longleftrightarrow> (\<forall>c \<in> set candidates. c \<notin> set (columns df))"
  by (induction candidates) auto

lemma first_col_Some_iff:
  "first_col df candidates = Some c \<longleftrightarrow>
     (\<exists>pre post. candidates = pre @ c # post \<and> c \<in> set (columns df) \<and>
        (\<forall>p \<in> set pre. p \<notin> set (columns df)))"
proof (induction candidates)
  case Nil
  then show ?case by simp
next
  case (Cons a candidates)
  show ?case
  proof (cases "a \<in> set (columns df)")
    case True
    have "(\<exists>pre post. a # candidates = pre @ c # post \<and> c \<in> set (columns df) \<and>
        (\<forall>p \<in> set pre. p \<notin> set (columns df))) \<longleftrightarrow> a = c"
    proof
      assume "\<exists>pre post. a # candidates = pre @ c # post \<and> c \<in> set (columns df) \<and>
        (\<forall>p \<in> set pre. p \<notin> set (columns df))"
      then obtain pre post where *: "a # candidates = pre @ c # post"
        "\<forall>p \<in> set pre. p \<notin> set (columns df)" by blast
      show "a = c"
      proof (cases pre)
        case Nil
        with * show ?thesis by simp
      next
        case (Cons b pre')
        with * True show ?thesis by auto
      qed
    next
      assume "a = c"
      with True have "a # candidates = [] @ c # candidates \<and> c \<in> set (columns df) \<and>
        (\<forall>p \<in> set []. p \<notin> set (columns df))" by simp
      then show "\<exists>pre post. a # candidates = pre @ c # post \<and> c \<in> set (columns df) \<and>
        (\<forall>p \<in> set pre. p \<notin> set (columns df))" by blast
    qed
    with True show ?thesis by auto
  next
    case False
    have "(\<exists>pre post. a # candidates = pre @ c # post \<and> c \<in> set (columns df) \<and>
        (\<forall>p \<in> set pre. p \<notin> set (columns df))) \<longleftrightarrow>
      (\<exists>pre post. candidates = pre @ c # post \<and> c \<in> set (columns df) \<and>
        (\<forall>p \<in> set pre. p \<notin> set (columns df)))" (is "?L \<longleftrightarrow> ?R")
    proof
      assume ?L
      then obtain pre post where *: "a # candidates = pre @ c # post" "c \<in> set (columns df)"
        "\<forall>p \<in> set pre. p \<notin> set (columns df)" by blast
      from * False obtain pre' where "pre = a # pre'"
        by (cases pre) auto
      with * have "candidates = pre' @ c # post \<and> c \<in> set (columns df) \<and>
        (\<forall>p \<in> set pre'. p \<notin> set (columns df))" by simp
      then show ?R by blast
    next
      assume ?R
      then obtain pre post where "candidates = pre @ c # post" "c \<in> set (columns df)"
        "\<forall>p \<in> set pre. p \<notin> set (columns df)" by blast
      with False have "a # candidates = (a # pre) @ c # post \<and> c \<in> set (columns df) \<and>
        (\<forall>p \<in> set (a # pre). p \<notin> set (columns df))" by simp
      then show ?L by blast
    qed
    with False Cons.IH show ?thesis by simp
  qed
qed

text \<open>
  C7. The column resolver returns None exactly when no candidate is a column of the
  dataframe, and returns \<open>c\<close> exactly when \<open>c\<close> is a candidate that is a column and no
  candidate before it in the list is one. It is a function of the dataframe's contents
  and the candidates alone: it reads the columns and changes nothing.
\<close>

theorem first_col_first_present:
  "(first_col df candidates = None \<longleftrightarrow> (\<forall>c \<in> set candidates. c \<notin> set (columns df))) \<and>
   (first_col df candidates = Some c \<longleftrightarrow>
     (\<exists>pre post. candidates = pre @ c # post \<and> c \<in> set (columns df) \<and>
        (\<forall>p \<in> set pre. p \<notin> set (columns df))))"
  using first_col_None_iff first_col_Some_iff by blast

theorem first_col_first_present_witness:
  "first_col [(''Annual_Income'', [PInt 5]), (''Tax'', [PInt 7])]
     [''Income'', ''income'', ''Annual_Income'', ''Tax''] = Some ''Annual_Income'' \<and>
   first_col [(''Annual_Income'', [PInt 5]), (''Tax'', [PInt 7])] [''Reviews'', ''Rating''] = None"
proof -
  let ?df = "[(''Annual_Income'', [PInt 5]), (''Tax'', [PInt 7])]"
  have "[''Income'', ''income'', ''Annual_Income'', ''Tax''] =
          [''Income'', ''income''] @ ''Annual_Income'' # [''Tax''] \<and>
        ''Annual_Income'' \<in> set (columns ?df) \<and>
        (\<forall>p \<in> set [''Income'', ''income'']. p \<notin> set (columns ?df))"
    by (simp add: columns_def)
  then have "\<exists>pre post. [''Income'', ''income'', ''Annual_Income'', ''Tax''] =
          pre @ ''Annual_Income'' # post \<and>
        ''Annual_Income'' \<in> set (columns ?df) \<and>
        (\<forall>p \<in> set pre. p \<notin> set (columns ?df))"
    by blast
  moreover have "\<forall>c \<in> set [''Reviews'', ''Rating'']. c \<notin> set (columns ?df)"
    by (simp add: columns_def)
  ultimately show ?thesis
    using first_col_first_present [of ?df "[''Income'', ''income'', ''Annual_Income'', ''Tax'']"
        "''Annual_Income''"]
      first_col_first_present [of ?df "[''Reviews'', ''Rating'']" "''x''"]
    by blast
qed

lemma spacing_positive: "0 < spacing x"
  by (simp add: spacing_def Let_def)

lemma exponent_bounds:
  assumes "x \<noteq> 0"
  shows "2 powr of_int (exponent x) \<le> \<bar>x\<bar> \<and> \<bar>x\<bar> < 2 powr (of_int (exponent x) + 1)"
proof (cases "1 \<le> \<bar>x\<bar>")
  case True
  let ?n = "nat \<lfloor>\<bar>x\<bar>\<rfloor>"
  let ?k = "log2_floor ?n"
  from True have n: "0 < ?n" by simp
  from True have ex: "exponent x = int ?k" by (simp add: exponent_def)
  from log2_floor_bounds [OF n] have lo: "2 ^ ?k \<le> ?n" and hi: "?n < 2 ^ Suc ?k" by simp_all
  have fl: "real ?n \<le> \<bar>x\<bar>" "\<bar>x\<bar> < real ?n + 1" using True by linarith+
  from lo have "(2::real) ^ ?k \<le> real ?n"
    by (metis of_nat_le_iff of_nat_numeral of_nat_power)
  with fl have a: "(2::real) ^ ?k \<le> \<bar>x\<bar>" by linarith
  from hi have "Suc ?n \<le> 2 ^ Suc ?k" by simp
  then have "real (Suc ?n) \<le> 2 ^ Suc ?k"
    by (metis of_nat_le_iff of_nat_numeral of_nat_power)
  with fl have b: "\<bar>x\<bar> < (2::real) ^ Suc ?k" by linarith
  have pw: "(2::real) powr real m = 2 ^ m" for m
    by (rule powr_realpow) simp
  have e1: "of_int (exponent x) = real ?k" using ex by simp
  have e2: "of_int (exponent x) + 1 = real (Suc ?k)" using ex by simp
  have p1: "2 powr of_int (exponent x) = (2::real) ^ ?k"
    unfolding e1 by (rule pw)
  have p2: "2 powr (of_int (exponent x) + 1) = (2::real) ^ Suc ?k"
    unfolding e2 by (rule pw)
  from a b p1 p2 show ?thesis by simp
next
  case False
  let ?y = "1 / \<bar>x\<bar>"
  let ?n = "nat (\<lceil>?y\<rceil> - 1)"
  let ?k = "log2_floor ?n"
  from False assms have x: "0 < \<bar>x\<bar>" "\<bar>x\<bar> < 1" by simp_all
  then have y: "1 < ?y" by simp
  then have c: "2 \<le> \<lceil>?y\<rceil>" by linarith
  then have n: "0 < ?n" by simp
  from False have ex: "exponent x = - int (Suc ?k)" by (simp add: exponent_def)
  from log2_floor_bounds [OF n] have lo: "2 ^ ?k \<le> ?n" and hi: "?n < 2 ^ Suc ?k" by simp_all
  have cl: "real ?n < ?y" "?y \<le> real ?n + 1" using c by linarith+
  from lo have "(2::real) ^ ?k \<le> real ?n"
    by (metis of_nat_le_iff of_nat_numeral of_nat_power)
  with cl have a: "(2::real) ^ ?k < ?y" by linarith
  from hi have "Suc ?n \<le> 2 ^ Suc ?k" by simp
  then have "real (Suc ?n) \<le> 2 ^ Suc ?k"
    by (metis of_nat_le_iff of_nat_numeral of_nat_power)
  with cl have b: "?y \<le> (2::real) ^ Suc ?k" by linarith
  from a x have a': "\<bar>x\<bar> < 1 / (2::real) ^ ?k"
    by (simp add: field_simps)
  from b x have b': "1 / (2::real) ^ Suc ?k \<le> \<bar>x\<bar>"
    by (simp add: field_simps)
  have pw: "(2::real) powr - real m = 1 / 2 ^ m" for m
    unfolding powr_minus_divide by (simp only: powr_realpow [of 2 m, simplified])
  have e1: "of_int (exponent x) = - real (Suc ?k)" using ex by simp
  have e2: "of_int (exponent x) + 1 = - real ?k" using ex by simp
  have p1: "2 powr of_int (exponent x) = 1 / (2::real) ^ Suc ?k"
    unfolding e1 by (rule pw)
  have p2: "2 powr (of_int (exponent x) + 1) = 1 / (2::real) ^ ?k"
    unfolding e2 by (rule pw)
  from a' b' p1 p2 show ?thesis by simp
qed

lemma round_double_nearest:
  assumes "round_double x = Fin r"
  shows "(\<exists>m. \<bar>r\<bar> = of_int m * spacing x) \<and> \<bar>r - x\<bar> \<le> spacing x / 2"
proof (cases "x = 0")
  case True
  with assms have "r = 0" by (simp add: round_double_def)
  moreover have "\<bar>0::real\<bar> = of_int 0 * spacing x" by simp
  ultimately show ?thesis using True spacing_positive [of x] by (simp del: of_int_0)
next
  case False
  let ?q = "spacing x"
  let ?m = "round_half_even (\<bar>x\<bar> / ?q)"
  have q0: "0 < ?q" by (rule spacing_positive)
  have "0 \<le> \<bar>x\<bar> / ?q" using q0 by simp
  then have "0 \<le> \<lfloor>\<bar>x\<bar> / ?q\<rfloor>" by simp
  with round_half_even_floor [of "\<bar>x\<bar> / ?q"] have m0: "0 \<le> ?m" by linarith
  from assms False have r: "r = (if 0 < x then of_int ?m * ?q else - (of_int ?m * ?q))"
    by (simp add: round_double_def Let_def split: if_splits)
  from m0 q0 have "0 \<le> of_int ?m * ?q" by simp
  then have "\<bar>of_int ?m * ?q\<bar> = of_int ?m * ?q" by (rule abs_of_nonneg)
  moreover have "r = of_int ?m * ?q \<or> r = - (of_int ?m * ?q)"
    by (metis r)
  ultimately have abs: "\<bar>r\<bar> = of_int ?m * ?q"
    by (metis abs_minus_cancel)
  have "\<bar>of_int ?m - \<bar>x\<bar> / ?q\<bar> \<le> 1 / 2" by (rule round_half_even_nearest)
  then have "\<bar>of_int ?m - \<bar>x\<bar> / ?q\<bar> * ?q \<le> 1 / 2 * ?q"
    using q0 by (intro mult_right_mono) simp_all
  moreover have "\<bar>of_int ?m - \<bar>x\<bar> / ?q\<bar> * ?q = \<bar>of_int ?m * ?q - \<bar>x\<bar>\<bar>"
  proof -
    have "\<bar>of_int ?m - \<bar>x\<bar> / ?q\<bar> * ?q = \<bar>(of_int ?m - \<bar>x\<bar> / ?q) * ?q\<bar>"
      using q0 by (simp add: abs_mult)
    also have "(of_int ?m - \<bar>x\<bar> / ?q) * ?q = of_int ?m * ?q - \<bar>x\<bar>"
      using q0 by (simp add: left_diff_distrib)
    finally show ?thesis .
  qed
  ultimately have near: "\<bar>of_int ?m * ?q - \<bar>x\<bar>\<bar> \<le> ?q / 2" by simp
  have "\<bar>r - x\<bar> = \<bar>of_int ?m * ?q - \<bar>x\<bar>\<bar>"
    using r False by (cases "0 < x") simp_all
  with near have "\<bar>r - x\<bar> \<le> ?q / 2" by simp
  with abs show ?thesis by blast
qed

lemma round_double_positive:
  assumes "1 \<le> x"
  shows "round_double x = PosInf \<or> (\<exists>r. round_double x = Fin r \<and> 0 < r)"
proof -
  let ?n = "nat \<lfloor>\<bar>x\<bar>\<rfloor>"
  let ?q = "spacing x"
  let ?r = "of_int (round_half_even (\<bar>x\<bar> / ?q)) * ?q"
  from assms have x: "0 < x" "\<bar>x\<bar> = x" by simp_all
  from assms have n: "0 < ?n" by simp
  have ex: "exponent x = int (log2_floor ?n)"
    using assms by (simp add: exponent_def)
  then have e: "max (exponent x) (- 1022) = int (log2_floor ?n)" by simp
  have q0: "0 < ?q" by (rule spacing_positive)
  have "?q \<le> x"
  proof (cases "52 \<le> log2_floor ?n")
    case True
    then have "?q = 2 ^ (log2_floor ?n - 52)"
      unfolding spacing_def e by (simp add: nat_diff_distrib')
    also have "\<dots> \<le> 2 ^ log2_floor ?n"
      by (rule power_increasing) simp_all
    also have "\<dots> \<le> real ?n"
      using log2_floor_bounds [OF n] by (metis of_nat_le_iff of_nat_numeral of_nat_power)
    also have "\<dots> \<le> x"
      using assms by simp
    finally show ?thesis .
  next
    case False
    then have "?q = 1 / 2 ^ nat (52 - int (log2_floor ?n))"
      unfolding spacing_def e by simp
    also have "\<dots> \<le> 1" by simp
    finally show ?thesis using assms by simp
  qed
  with q0 x have "1 \<le> \<bar>x\<bar> / ?q" by simp
  then have "1 \<le> \<lfloor>\<bar>x\<bar> / ?q\<rfloor>" by simp
  with round_half_even_floor [of "\<bar>x\<bar> / ?q"] have "1 \<le> round_half_even (\<bar>x\<bar> / ?q)"
    by linarith
  then have "0 < real_of_int (round_half_even (\<bar>x\<bar> / ?q))" by simp
  from this q0 have r: "0 < ?r" by (rule mult_pos_pos)
  have "round_double x = (if 2 ^ 1024 \<le> ?r then PosInf else Fin ?r)"
    using x(1) by (simp add: round_double_def Let_def)
  with r show ?thesis by auto
qed

lemma float_add_one_positive:
  assumes "float_le (Fin 0) p"
  shows "float_add p (Fin 1) = PosInf \<or> (\<exists>r. float_add p (Fin 1) = Fin r \<and> 0 < r)"
proof (cases p)
  case (Fin a)
  with assms have "1 \<le> a + 1" by simp
  from round_double_positive [OF this] Fin show ?thesis by simp
next
  case PosInf
  then show ?thesis by simp
next
  case NegInf
  with assms show ?thesis by (simp add: float_le_def float_eq_def)
next
  case NaN
  with assms show ?thesis by (simp add: float_le_def float_eq_def)
qed

lemma float_div_defined:
  assumes "d = PosInf \<or> (\<exists>r. d = Fin r \<and> 0 < r)"
  shows "\<exists>ratio. float_div t d = Inr ratio"
  using assms by (cases t) auto

lemma price_literals:
  "round_double 776.17 = Fin (6827263521047183 / 2 ^ 43)"
  "round_double 241.24 = Fin (1060984740338729 / 2 ^ 42)"
  "round_double 2328.51 = Fin (1280111910196347 / 2 ^ 39)"
  "round_double 2329.51 = Fin (1280661666010235 / 2 ^ 39)"
  by (simp_all add: round_double_eval)

lemma price_example:
  "int_to_float 3 = Inr (Fin 3)"
  "float_mul (Fin 3) (Fin (6827263521047183 / 2 ^ 43)) = Fin (5120447640785387 / 2 ^ 41)"
  "float_add (Fin (5120447640785387 / 2 ^ 41)) (Fin (1060984740338729 / 2 ^ 42)) = Fin 2569.75"
  "float_add (Fin (5120447640785387 / 2 ^ 41)) (Fin 1) = Fin (5122646664040939 / 2 ^ 41)"
  "float_div (Fin (1060984740338729 / 2 ^ 42)) (Fin (5122646664040939 / 2 ^ 41)) =
     Inr (Fin (7462158988675617 / 2 ^ 56))"
  "float_div (Fin (1060984740338729 / 2 ^ 42)) (Fin (1280661666010235 / 2 ^ 39)) =
     Inr (Fin (233192468396113 / 2 ^ 51))"
  by (simp_all add: int_to_float_def int_float_bound_def round_double_eval)

lemma zero_example:
  "int_to_float 1 = Inr (Fin 1)"
  "float_mul (Fin 1) (Fin 0) = Fin 0"
  "float_add (Fin 0) (Fin 0) = Fin 0"
  "float_add (Fin 0) (Fin 1) = Fin 1"
  "float_div (Fin 0) (Fin 1) = Inr (Fin 0)"
  by (simp_all add: int_to_float_def int_float_bound_def round_double_eval)

lemma price_example_run:
  "auto_calculations 3 (round_double 776.17) (round_double 241.24) =
     Inr \<lparr>Price = Fin (5120447640785387 / 2 ^ 41), total_price = Fin 2569.75,
          tax_ratio = Fin (7462158988675617 / 2 ^ 56)\<rparr>"
  by (simp only: auto_calculations_def Let_def price_literals price_example sum.case)

lemma zero_example_run:
  "auto_calculations 1 (Fin 0) (Fin 0) =
     Inr \<lparr>Price = Fin 0, total_price = Fin 0, tax_ratio = Fin 0\<rparr>"
  by (simp only: auto_calculations_def Let_def zero_example sum.case)

text \<open>
  C3, as the code has it. The prediction page computes in double arithmetic
  Price = Quantity * Unit_Price, total_price = Price + Tax and
  tax_ratio = Tax / (Price + 1), each result rounded to the nearest double. For a
  non-negative Price the denominator is not zero and no ZeroDivisionError is raised.
  Quantity 3 and the floats 776.17 and 241.24 give Price 5120447640785387 / 2 ^ 41
  (printed 2328.5099999999998), total_price 2569.75 and tax_ratio
  7462158988675617 / 2 ^ 56 (printed 0.10355825903301553); Quantity 1, Unit_Price 0 and
  Tax 0 give 0, 0 and 0.
\<close>

theorem auto_calculations_doubles:
  "(int_to_float q = Inr qf \<and> float_le (Fin 0) (float_mul qf u) \<longrightarrow>
      float_add (float_mul qf u) (Fin 1) \<noteq> Fin 0 \<and>
      (\<exists>ratio. float_div t (float_add (float_mul qf u) (Fin 1)) = Inr ratio \<and>
         auto_calculations q u t =
           Inr \<lparr>Price = float_mul qf u, total_price = float_add (float_mul qf u) t,
                tax_ratio = ratio\<rparr>)) \<and>
   auto_calculations 3 (round_double 776.17) (round_double 241.24) =
     Inr \<lparr>Price = Fin (5120447640785387 / 2 ^ 41), total_price = Fin 2569.75,
          tax_ratio = Fin (7462158988675617 / 2 ^ 56)\<rparr> \<and>
   auto_calculations 1 (Fin 0) (Fin 0) =
     Inr \<lparr>Price = Fin 0, total_price = Fin 0, tax_ratio = Fin 0\<rparr>"
proof -
  have general: "float_add (float_mul qf u) (Fin 1) \<noteq> Fin 0 \<and>
      (\<exists>ratio. float_div t (float_add (float_mul qf u) (Fin 1)) = Inr ratio \<and>
         auto_calculations q u t =
           Inr \<lparr>Price = float_mul qf u, total_price = float_add (float_mul qf u) t,
                tax_ratio = ratio\<rparr>)"
    if conv: "int_to_float q = Inr qf" and nonneg: "float_le (Fin 0) (float_mul qf u)"
  proof -
    let ?d = "float_add (float_mul qf u) (Fin 1)"
    from float_add_one_positive [OF nonneg]
    have d: "?d = PosInf \<or> (\<exists>r. ?d = Fin r \<and> 0 < r)" .
    then have "?d \<noteq> Fin 0" by auto
    moreover from float_div_defined [OF d] obtain ratio where "float_div t ?d = Inr ratio" ..
    moreover from this conv have "auto_calculations q u t =
           Inr \<lparr>Price = float_mul qf u, total_price = float_add (float_mul qf u) t,
                tax_ratio = ratio\<rparr>"
      by (simp add: auto_calculations_def Let_def)
    ultimately show ?thesis by blast
  qed
  have first: "auto_calculations 3 (round_double 776.17) (round_double 241.24) =
     Inr \<lparr>Price = Fin (5120447640785387 / 2 ^ 41), total_price = Fin 2569.75,
          tax_ratio = Fin (7462158988675617 / 2 ^ 56)\<rparr>"
    by (rule price_example_run)
  have second: "auto_calculations 1 (Fin 0) (Fin 0) =
     Inr \<lparr>Price = Fin 0, total_price = Fin 0, tax_ratio = Fin 0\<rparr>"
    by (rule zero_example_run)
  from general first second show ?thesis by blast
qed

text \<open>
  The product of 3 and the float 776.17 is not the float 2328.51 but the double next
  below it, and the quotient the page computes is not the quotient of the floats 241.24
  and 2329.51.
\<close>

theorem auto_calculations_decimal_counterexample:
  "auto_calculations 3 (round_double 776.17) (round_double 241.24) =
     Inr \<lparr>Price = Fin (5120447640785387 / 2 ^ 41), total_price = Fin 2569.75,
          tax_ratio = Fin (7462158988675617 / 2 ^ 56)\<rparr> \<and>
   Fin (5120447640785387 / 2 ^ 41) \<noteq> round_double 2328.51 \<and>
   Inr (Fin (7462158988675617 / 2 ^ 56)) \<noteq>
     float_div (round_double 241.24) (round_double 2329.51)"
proof -
  have price: "Fin (5120447640785387 / 2 ^ 41) \<noteq> round_double 2328.51"
    unfolding price_literals by simp
  have ratio: "Inr (Fin (7462158988675617 / 2 ^ 56)) \<noteq>
      float_div (round_double 241.24) (round_double 2329.51)"
    unfolding price_literals price_example by simp
  from price_example_run price ratio show ?thesis by (intro conjI)
qed

theorem auto_calculations_doubles_witness:
  "int_to_float 3 = Inr (Fin 3) \<and>
   float_le (Fin 0) (float_mul (Fin 3) (round_double 776.17)) \<and>
   float_add (float_mul (Fin 3) (round_double 776.17)) (Fin 1) \<noteq> Fin 0 \<and>
   (\<exists>ratio.
      float_div (round_double 241.24)
        (float_add (float_mul (Fin 3) (round_double 776.17)) (Fin 1)) = Inr ratio \<and>
      auto_calculations 3 (round_double 776.17) (round_double 241.24) =
        Inr \<lparr>Price = float_mul (Fin 3) (round_double 776.17),
             total_price = float_add (float_mul (Fin 3) (round_double 776.17))
                             (round_double 241.24),
             tax_ratio = ratio\<rparr>)"
proof -
  have h1: "int_to_float 3 = Inr (Fin 3)"
    by (simp add: price_example)
  have h2: "float_le (Fin 0) (float_mul (Fin 3) (round_double 776.17))"
    unfolding price_literals price_example by simp
  from auto_calculations_doubles [of 3 "Fin 3" "round_double 776.17" "round_double 241.24"] h1 h2
  show ?thesis by blast
qed

section \<open>Properties of the dataframe derivations\<close>

lemma columns_setitem: "col \<in> set (columns (setitem df col cells))"
proof (cases "col \<in> set (columns df)")
  case True
  have "columns (map (\<lambda>(name, old). if name = col then (name, cells) else (name, old)) df)
          = columns df"
    by (induction df) (auto simp: columns_def)
  with True show ?thesis by (simp add: setitem_def)
next
  case False
  then show ?thesis by (simp add: setitem_def columns_def)
qed

lemma setitem_absent: "col \<notin> set (columns df) \<Longrightarrow> setitem df col cells = df @ [(col, cells)]"
  by (simp add: setitem_def)

lemma numeric_values_length: "numeric_values cells = Some x \<Longrightarrow> length x = length cells"
  by (induction cells arbitrary: x) (auto split: option.splits)

lemma pd_cut_length: "pd_cut x bins labels = Inr cats \<Longrightarrow> length cats = length x"
  by (auto simp: pd_cut_def split: if_splits list.splits)

lemma ensure_review_level_present:
  "''Review_Level'' \<in> set (columns (h df)) \<Longrightarrow> ensure_review_level parse df col h = (Inr df, h)"
  by (simp add: ensure_review_level_def)

lemma ensure_tax_level_present:
  "''Tax_Level'' \<in> set (columns (h df)) \<Longrightarrow> ensure_tax_level parse df col h = (Inr df, h)"
  by (simp add: ensure_tax_level_def)

lemma ensure_income_category_present:
  "''Income_Category'' \<in> set (columns (h df)) \<Longrightarrow> ensure_income_category df col h = (Inr df, h)"
  by (simp add: ensure_income_category_def)

lemma ensure_review_level_twice:
  "ensure_review_level parse df col (snd (ensure_review_level parse df col h)) =
     ensure_review_level parse df col h"
proof (cases "''Review_Level'' \<in> set (columns (h df))")
  case True
  then show ?thesis by (simp add: ensure_review_level_present)
next
  case False
  show ?thesis
  proof (cases "getitem (h df) col")
    case (Inl e)
    with False show ?thesis by (simp add: ensure_review_level_def)
  next
    case (Inr cells)
    with False have "ensure_review_level parse df col h =
      (Inr df, h(df := setitem (h df) ''Review_Level''
                          (map (\<lambda>x. PStr (categorize_review parse x)) cells)))"
      by (simp add: ensure_review_level_def)
    then show ?thesis
      by (simp add: ensure_review_level_present columns_setitem)
  qed
qed

lemma ensure_tax_level_twice:
  "ensure_tax_level parse df col (snd (ensure_tax_level parse df col h)) =
     ensure_tax_level parse df col h"
proof (cases "''Tax_Level'' \<in> set (columns (h df))")
  case True
  then show ?thesis by (simp add: ensure_tax_level_present)
next
  case False
  show ?thesis
  proof (cases "getitem (h df) col")
    case (Inl e)
    with False show ?thesis by (simp add: ensure_tax_level_def)
  next
    case (Inr cells)
    with False have "ensure_tax_level parse df col h =
      (Inr df, h(df := setitem (h df) ''Tax_Level''
                          (map (\<lambda>x. PStr (map_tax parse x)) cells)))"
      by (simp add: ensure_tax_level_def)
    then show ?thesis
      by (simp add: ensure_tax_level_present columns_setitem)
  qed
qed

lemma ensure_income_category_result:
  "ensure_income_category df col h = (Inr df, h) \<or>
   (\<exists>e. ensure_income_category df col h = (Inl e, h)) \<or>
   (''Income_Category'' \<notin> set (columns (h df)) \<and>
    (\<exists>cells cats. getitem (h df) col = Inr cells \<and> length cats = length cells \<and>
       ensure_income_category df col h =
         (Inr df, h(df := setitem (h df) ''Income_Category'' cats))))"
proof (cases "''Income_Category'' \<in> set (columns (h df))")
  case True
  then show ?thesis by (simp add: ensure_income_category_present)
next
  case absent: False
  show ?thesis
  proof (cases "getitem (h df) col")
    case (Inl e)
    with absent show ?thesis by (simp add: ensure_income_category_def)
  next
    case cells: (Inr cells)
    show ?thesis
    proof (cases "numeric_values cells")
      case None
      with absent cells show ?thesis by (simp add: ensure_income_category_def)
    next
      case x: (Some x)
      let ?cut = "pd_cut x [Fin 0, Fin 38000, Fin 69000, Fin 99000, series_max x]
                    [''Low'', ''Medium'', ''High'', ''Very High'']"
      show ?thesis
      proof (cases ?cut)
        case (Inl e)
        with absent cells x show ?thesis by (simp add: ensure_income_category_def)
      next
        case (Inr cats)
        then have "length cats = length cells"
          using pd_cut_length numeric_values_length x by fastforce
        moreover from Inr absent cells x have "ensure_income_category df col h =
          (Inr df, h(df := setitem (h df) ''Income_Category'' cats))"
          by (simp add: ensure_income_category_def)
        ultimately show ?thesis using absent cells by blast
      qed
    qed
  qed
qed

lemma ensure_income_category_twice:
  "ensure_income_category df col (snd (ensure_income_category df col h)) =
     ensure_income_category df col h"
  using ensure_income_category_result [of df col h]
  by (auto simp: ensure_income_category_present columns_setitem)

lemma ensure_review_level_result:
  "ensure_review_level parse df col h = (Inr df, h) \<or>
   (\<exists>e. ensure_review_level parse df col h = (Inl e, h)) \<or>
   (''Review_Level'' \<notin> set (columns (h df)) \<and>
    (\<exists>cells cats. getitem (h df) col = Inr cells \<and> length cats = length cells \<and>
       ensure_review_level parse df col h =
         (Inr df, h(df := setitem (h df) ''Review_Level'' cats))))"
proof (cases "''Review_Level'' \<in> set (columns (h df))")
  case True
  then show ?thesis by (simp add: ensure_review_level_present)
next
  case absent: False
  show ?thesis
  proof (cases "getitem (h df) col")
    case (Inl e)
    with absent show ?thesis by (simp add: ensure_review_level_def)
  next
    case (Inr cells)
    let ?cats = "map (\<lambda>x. PStr (categorize_review parse x)) cells"
    have "length ?cats = length cells" by simp
    moreover from Inr absent have "ensure_review_level parse df col h =
        (Inr df, h(df := setitem (h df) ''Review_Level'' ?cats))"
      by (simp add: ensure_review_level_def)
    ultimately show ?thesis using absent Inr by blast
  qed
qed

lemma ensure_tax_level_result:
  "ensure_tax_level parse df col h = (Inr df, h) \<or>
   (\<exists>e. ensure_tax_level parse df col h = (Inl e, h)) \<or>
   (''Tax_Level'' \<notin> set (columns (h df)) \<and>
    (\<exists>cells cats. getitem (h df) col = Inr cells \<and> length cats = length cells \<and>
       ensure_tax_level parse df col h =
         (Inr df, h(df := setitem (h df) ''Tax_Level'' cats))))"
proof (cases "''Tax_Level'' \<in> set (columns (h df))")
  case True
  then show ?thesis by (simp add: ensure_tax_level_present)
next
  case absent: False
  show ?thesis
  proof (cases "getitem (h df) col")
    case (Inl e)
    with absent show ?thesis by (simp add: ensure_tax_level_def)
  next
    case (Inr cells)
    let ?cats = "map (\<lambda>x. PStr (map_tax parse x)) cells"
    have "length ?cats = length cells" by simp
    moreover from Inr absent have "ensure_tax_level parse df col h =
        (Inr df, h(df := setitem (h df) ''Tax_Level'' ?cats))"
      by (simp add: ensure_tax_level_def)
    ultimately show ?thesis using absent Inr by blast
  qed
qed

lemma frame_of_result:
  assumes "f df col h = (Inr df, h) \<or>
   (\<exists>e. f df col h = (Inl e, h)) \<or>
   (target \<notin> set (columns (h df)) \<and>
    (\<exists>cells cats. getitem (h df) col = Inr cells \<and> length cats = length cells \<and>
       f df col h = (Inr df, h(df := setitem (h df) target cats))))"
    and "f df col h = (res, h')"
  shows "(\<forall>d. d \<noteq> df \<longrightarrow> h' d = h d) \<and>
     (case res of
        Inl e \<Rightarrow> h' = h
      | Inr r \<Rightarrow> r = df \<and>
          (h' df = h df \<or>
           (target \<notin> set (columns (h df)) \<and>
            (\<exists>cells new. getitem (h df) col = Inr cells \<and> length new = length cells \<and>
               h' df = h df @ [(target, new)]))))"
  using assms by (auto simp: setitem_absent)

text \<open>
  C10. Each of the three derivation functions works on the dataframe object it is given:
  when it returns, it returns the identity it received, and no other object of the heap
  changes. The contents of the dataframe are either unchanged or extended by exactly one
  column, the target column, appended after the existing columns; the existing columns
  keep their names, values and order, and the new column has as many rows as the source
  column. When the function raises, the heap is unchanged.
\<close>

theorem derivations_frame:
  assumes "(f, target) \<in> {(ensure_review_level parse, ''Review_Level''),
             (ensure_income_category, ''Income_Category''),
             (ensure_tax_level parse, ''Tax_Level'')}"
    and "f df col h = (res, h')"
  shows "(\<forall>d. d \<noteq> df \<longrightarrow> h' d = h d) \<and>
     (case res of
        Inl e \<Rightarrow> h' = h
      | Inr r \<Rightarrow> r = df \<and>
          (h' df = h df \<or>
           (target \<notin> set (columns (h df)) \<and>
            (\<exists>cells new. getitem (h df) col = Inr cells \<and> length new = length cells \<and>
               h' df = h df @ [(target, new)]))))"
proof -
  from assms(1) consider
    "f = ensure_review_level parse" "target = ''Review_Level''"
    | "f = ensure_income_category" "target = ''Income_Category''"
    | "f = ensure_tax_level parse" "target = ''Tax_Level''"
    by auto
  then show ?thesis
  proof cases
    case 1
    show ?thesis
      using frame_of_result [of f df col h target res h'] assms(2)
        ensure_review_level_result [of parse df col h]
      unfolding 1 by blast
  next
    case 2
    show ?thesis
      using frame_of_result [of f df col h target res h'] assms(2)
        ensure_income_category_result [of df col h]
      unfolding 2 by blast
  next
    case 3
    show ?thesis
      using frame_of_result [of f df col h target res h'] assms(2)
        ensure_tax_level_result [of parse df col h]
      unfolding 3 by blast
  qed
qed

text \<open>
  C6. On a dataframe that already has the target column, each derivation function returns
  the dataframe and leaves the heap as it is. Hence a second call after a first one gives
  the result and the heap of the first.
\<close>

theorem derivations_idempotent:
  assumes "(f, target) \<in> {(ensure_review_level parse, ''Review_Level''),
             (ensure_income_category, ''Income_Category''),
             (ensure_tax_level parse, ''Tax_Level'')}"
  shows "(target \<in> set (columns (h df)) \<longrightarrow> f df col h = (Inr df, h)) \<and>
     f df col (snd (f df col h)) = f df col h"
  using assms
  by (auto simp: ensure_review_level_present ensure_income_category_present
      ensure_tax_level_present ensure_review_level_twice ensure_income_category_twice
      ensure_tax_level_twice)


theorem derivations_frame_witness:
  "(ensure_review_level (\<lambda>s. None), ''Review_Level'') \<in>
     {(ensure_review_level (\<lambda>s. None), ''Review_Level''),
      (ensure_income_category, ''Income_Category''),
      (ensure_tax_level (\<lambda>s. None), ''Tax_Level'')} \<and>
   fst (ensure_review_level (\<lambda>s. None) 0 ''Reviews''
          (empty_heap(0 := [(''Reviews'', [PInt 1, PInt 3, PInt 5])]))) = Inr 0 \<and>
   snd (ensure_review_level (\<lambda>s. None) 0 ''Reviews''
          (empty_heap(0 := [(''Reviews'', [PInt 1, PInt 3, PInt 5])]))) 0 =
     [(''Reviews'', [PInt 1, PInt 3, PInt 5]),
      (''Review_Level'', [PStr ''Low'', PStr ''Medium'', PStr ''High''])] \<and>
   snd (ensure_review_level (\<lambda>s. None) 0 ''Reviews''
          (empty_heap(0 := [(''Reviews'', [PInt 1, PInt 3, PInt 5])]))) 1 = []"
proof -
  let ?h = "empty_heap(0 := [(''Reviews'', [PInt 1, PInt 3, PInt 5])]) :: heap"
  let ?f = "ensure_review_level (\<lambda>s. None)"
  have mem: "(?f, ''Review_Level'') \<in>
     {(ensure_review_level (\<lambda>s. None), ''Review_Level''),
      (ensure_income_category, ''Income_Category''),
      (ensure_tax_level (\<lambda>s. None), ''Tax_Level'')}"
    by simp
  have run: "?f 0 ''Reviews'' ?h = (fst (?f 0 ''Reviews'' ?h), snd (?f 0 ''Reviews'' ?h))"
    by simp
  have res: "fst (?f 0 ''Reviews'' ?h) = Inr 0"
    by (simp add: ensure_review_level_def columns_def getitem_def empty_heap_def)
  have new: "snd (?f 0 ''Reviews'' ?h) 0 =
     [(''Reviews'', [PInt 1, PInt 3, PInt 5]),
      (''Review_Level'', [PStr ''Low'', PStr ''Medium'', PStr ''High''])]"
    by (simp add: ensure_review_level_def columns_def getitem_def setitem_def
        categorize_review_def int_float_bound_def empty_heap_def)
  from derivations_frame [OF mem run] have "snd (?f 0 ''Reviews'' ?h) 1 = ?h 1"
    by simp
  with mem res new show ?thesis by (simp add: empty_heap_def)
qed

theorem derivations_idempotent_witness:
  "(ensure_income_category, ''Income_Category'') \<in>
     {(ensure_review_level (\<lambda>s. None), ''Review_Level''),
      (ensure_income_category, ''Income_Category''),
      (ensure_tax_level (\<lambda>s. None), ''Tax_Level'')} \<and>
   ''Income_Category'' \<in> set (columns
      ((empty_heap(0 := [(''Income'', [PInt 5]), (''Income_Category'', [PStr ''Low''])])) (0::nat))) \<and>
   ensure_income_category 0 ''Income''
      (empty_heap(0 := [(''Income'', [PInt 5]), (''Income_Category'', [PStr ''Low''])])) =
     (Inr 0, empty_heap(0 := [(''Income'', [PInt 5]), (''Income_Category'', [PStr ''Low''])]))"
proof -
  let ?h = "empty_heap(0 := [(''Income'', [PInt 5]), (''Income_Category'', [PStr ''Low''])]) :: heap"
  have mem: "(ensure_income_category, ''Income_Category'') \<in>
     {(ensure_review_level (\<lambda>s. None), ''Review_Level''),
      (ensure_income_category, ''Income_Category''),
      (ensure_tax_level (\<lambda>s. None), ''Tax_Level'')}"
    by simp
  have present: "''Income_Category'' \<in> set (columns (?h 0))"
    by (simp add: columns_def)
  from derivations_idempotent [OF mem, of ?h 0 "''Income''"] present
  have "ensure_income_category 0 ''Income'' ?h = (Inr 0, ?h)" by blast
  with mem present show ?thesis by blast
qed

section \<open>Properties of the income category\<close>

lemma bin_label_income:
  assumes "99000 < M"
  shows "bin_label [Fin 0, Fin 38000, Fin 69000, Fin 99000, Fin M]
           [''Low'', ''Medium'', ''High'', ''Very High''] (Fin 0) (Fin v) =
         (if v < 0 then PFloat NaN
          else if v \<le> 38000 then PStr ''Low''
          else if v \<le> 69000 then PStr ''Medium''
          else if v \<le> 99000 then PStr ''High''
          else if v \<le> M then PStr ''Very High''
          else PFloat NaN)"
  using assms by (auto simp: bin_label_def searchsorted_left_def Let_def)

lemma pd_cut_income:
  assumes "99000 < M"
  shows "pd_cut x [Fin 0, Fin 38000, Fin 69000, Fin 99000, Fin M]
           [''Low'', ''Medium'', ''High'', ''Very High''] =
         Inr (map (bin_label [Fin 0, Fin 38000, Fin 69000, Fin 99000, Fin M]
                     [''Low'', ''Medium'', ''High'', ''Very High''] (Fin 0)) x)"
  using assms by (simp add: pd_cut_def)

lemma float_max_step:
  assumes "a \<noteq> NaN" "v \<noteq> NaN"
  shows "(if float_lt v a then a else v) \<noteq> NaN \<and>
         float_le a (if float_lt v a then a else v) \<and>
         float_le v (if float_lt v a then a else v)"
  using assms by (cases a; cases v) (auto simp: float_le_def float_eq_def)

lemma fold_max_upper:
  assumes "v \<noteq> NaN" "NaN \<notin> set vs"
  shows "\<forall>w \<in> set (v # vs). float_le w (fold (\<lambda>w m. if float_lt m w then w else m) vs v)"
  using assms
proof (induction vs arbitrary: v)
  case Nil
  then show ?case by (cases v) (auto simp: float_le_def float_eq_def)
next
  case (Cons a vs)
  let ?m = "if float_lt v a then a else v"
  let ?r = "fold (\<lambda>w m. if float_lt m w then w else m) vs ?m"
  from Cons.prems have a: "a \<noteq> NaN" and vs: "NaN \<notin> set vs" by auto
  from float_max_step [OF a Cons.prems(1)]
  have m: "?m \<noteq> NaN" "float_le a ?m" "float_le v ?m" by blast+
  from Cons.IH [OF m(1) vs] have ih: "\<forall>w \<in> set (?m # vs). float_le w ?r" .
  then have "float_le ?m ?r" by simp
  with m have "float_le a ?r" "float_le v ?r" by (blast intro: float_le_trans)+
  with ih show ?case by simp
qed

lemma series_max_upper:
  assumes "series_max x = Fin M" "Fin v \<in> set x"
  shows "v \<le> M"
proof -
  let ?ys = "filter (\<lambda>v. v \<noteq> NaN) x"
  from assms(2) have mem: "Fin v \<in> set ?ys" by simp
  then obtain y ys where ys: "?ys = y # ys" by (cases ?ys) auto
  have "set (y # ys) = set ?ys" using ys by simp
  then have "\<forall>w \<in> set (y # ys). w \<noteq> NaN" by simp
  then have "y \<noteq> NaN" "NaN \<notin> set ys" by auto
  from fold_max_upper [OF this] mem ys
  have "float_le (Fin v) (fold (\<lambda>w m. if float_lt m w then w else m) ys y)" by auto
  moreover from assms(1) ys
  have "fold (\<lambda>w m. if float_lt m w then w else m) ys y = Fin M"
    by (simp add: series_max_def)
  ultimately show ?thesis by simp
qed

lemma numeric_values_nth:
  "numeric_values cells = Some x \<Longrightarrow> i < length cells \<Longrightarrow> to_numeric (cells ! i) = Some (x ! i)"
proof (induction cells arbitrary: x i)
  case Nil
  then show ?case by simp
next
  case (Cons c cells)
  then show ?case by (cases i) (auto split: option.splits)
qed

lemma getitem_appended:
  "col \<notin> set (columns df) \<Longrightarrow> getitem (df @ [(col, cells)]) col = Inr cells"
proof -
  assume "col \<notin> set (columns df)"
  then have "map_of df col = None"
    by (simp add: columns_def map_of_eq_None_iff)
  then show ?thesis by (simp add: getitem_def map_add_def)
qed


lemma ensure_income_category_ok:
  assumes "''Income_Category'' \<notin> set (columns (h df))"
    and "getitem (h df) col = Inr cells"
    and "numeric_values cells = Some x"
    and "series_max x = Fin M"
    and "99000 < M"
  shows "ensure_income_category df col h =
           (Inr df,
            h(df := h df @ [(''Income_Category'',
                 map (bin_label [Fin 0, Fin 38000, Fin 69000, Fin 99000, Fin M]
                        [''Low'', ''Medium'', ''High'', ''Very High''] (Fin 0)) x)]))"
  using assms(1-4) pd_cut_income [OF assms(5), of x]
  by (simp add: ensure_income_category_def setitem_absent)

lemma income_cell:
  assumes "''Income_Category'' \<notin> set (columns (h df))"
    and "getitem (h df) col = Inr cells"
    and "numeric_values cells = Some x"
    and "series_max x = Fin M"
    and "99000 < M"
    and "i < length cells"
    and "to_numeric (cells ! i) = Some (Fin v)"
  shows "v \<le> M \<and>
     (\<exists>cats. getitem (snd (ensure_income_category df col h) df) ''Income_Category'' = Inr cats \<and>
        length cats = length cells \<and>
        cats ! i =
          (if v < 0 then PFloat NaN
           else if v \<le> 38000 then PStr ''Low''
           else if v \<le> 69000 then PStr ''Medium''
           else if v \<le> 99000 then PStr ''High''
           else PStr ''Very High''))"
proof -
  let ?bins = "[Fin 0, Fin 38000, Fin 69000, Fin 99000, Fin M]"
  let ?labels = "[''Low'', ''Medium'', ''High'', ''Very High'']"
  let ?cats = "map (bin_label ?bins ?labels (Fin 0)) x"
  have len: "length x = length cells"
    using assms(3) by (rule numeric_values_length)
  have xi: "x ! i = Fin v"
    using numeric_values_nth [OF assms(3) assms(6)] assms(7) by simp
  with len assms(6) have "Fin v \<in> set x"
    by (metis nth_mem)
  with assms(4) have vM: "v \<le> M" by (rule series_max_upper)
  have "snd (ensure_income_category df col h) df = h df @ [(''Income_Category'', ?cats)]"
    by (simp add: ensure_income_category_ok [of h df, OF assms(1-5)])
  then have get: "getitem (snd (ensure_income_category df col h) df) ''Income_Category'' = Inr ?cats"
    by (simp add: getitem_appended [OF assms(1)])
  have "?cats ! i = bin_label ?bins ?labels (Fin 0) (Fin v)"
    using len assms(6) xi by simp
  with vM have "?cats ! i =
          (if v < 0 then PFloat NaN
           else if v \<le> 38000 then PStr ''Low''
           else if v \<le> 69000 then PStr ''Medium''
           else if v \<le> 99000 then PStr ''High''
           else PStr ''Very High'')"
    by (simp add: bin_label_income [OF assms(5)])
  with get len vM show ?thesis by simp
qed

text \<open>
  C1, as the code has it. With the default \<^verbatim>\<open>right=True\<close> of \<^verbatim>\<open>pd.cut\<close> the bins are
  closed on the right. For a dataframe without the target column, a numeric income column
  and a dataset maximum \<open>M > 99000\<close>, the derivation returns the dataframe and gives the
  row of income \<open>v\<close> the category "Low" for \<open>0 \<le> v \<le> 38000\<close>, "Medium" for
  \<open>38000 < v \<le> 69000\<close>, "High" for \<open>69000 < v \<le> 99000\<close> and "Very High" for
  \<open>99000 < v\<close>, where \<open>v \<le> M\<close>. The lowest edge 0 is in "Low", and each of the edges
  38000, 69000 and 99000 is in the lower of its two bins.
\<close>

theorem income_bins_right_closed:
  assumes "''Income_Category'' \<notin> set (columns (h df))"
    and "getitem (h df) col = Inr cells"
    and "numeric_values cells = Some x"
    and "series_max x = Fin M"
    and "99000 < M"
    and "i < length cells"
    and "to_numeric (cells ! i) = Some (Fin v)"
  shows "\<exists>cats. fst (ensure_income_category df col h) = Inr df \<and>
        getitem (snd (ensure_income_category df col h) df) ''Income_Category'' = Inr cats \<and>
        (0 \<le> v \<and> v \<le> 38000 \<longrightarrow> cats ! i = PStr ''Low'') \<and>
        (38000 < v \<and> v \<le> 69000 \<longrightarrow> cats ! i = PStr ''Medium'') \<and>
        (69000 < v \<and> v \<le> 99000 \<longrightarrow> cats ! i = PStr ''High'') \<and>
        (99000 < v \<longrightarrow> v \<le> M \<and> cats ! i = PStr ''Very High'')"
proof -
  from income_cell [of h df, OF assms] obtain cats where
    "v \<le> M"
    "getitem (snd (ensure_income_category df col h) df) ''Income_Category'' = Inr cats"
    "cats ! i =
          (if v < 0 then PFloat NaN
           else if v \<le> 38000 then PStr ''Low''
           else if v \<le> 69000 then PStr ''Medium''
           else if v \<le> 99000 then PStr ''High''
           else PStr ''Very High'')"
    by blast
  moreover have "fst (ensure_income_category df col h) = Inr df"
    by (simp add: ensure_income_category_ok [of h df, OF assms(1-5)])
  ultimately show ?thesis by auto
qed

text \<open>
  C2, as the code has it. For a dataframe without the target column, a numeric income
  column and a dataset maximum \<open>M > 99000\<close>, every row with a non-negative income gets
  one of the four labels, and for two rows with incomes \<open>0 \<le> v \<le> w\<close> the position of
  the first row's label in the label list Low, Medium, High, Very High is at most the
  position of the second row's label.
\<close>

theorem income_category_labelled_monotone:
  assumes "''Income_Category'' \<notin> set (columns (h df))"
    and "getitem (h df) col = Inr cells"
    and "numeric_values cells = Some x"
    and "series_max x = Fin M"
    and "99000 < M"
    and "i < length cells"
    and "to_numeric (cells ! i) = Some (Fin v)"
    and "j < length cells"
    and "to_numeric (cells ! j) = Some (Fin w)"
    and "0 \<le> v"
    and "v \<le> w"
  shows "\<exists>cats a b.
        getitem (snd (ensure_income_category df col h) df) ''Income_Category'' = Inr cats \<and>
        cats ! i = PStr ([''Low'', ''Medium'', ''High'', ''Very High''] ! a) \<and>
        cats ! j = PStr ([''Low'', ''Medium'', ''High'', ''Very High''] ! b) \<and>
        a \<le> b \<and> b < 4"
proof -
  let ?rank = "\<lambda>u::real. if u \<le> 38000 then 0 else if u \<le> 69000 then 1
                 else if u \<le> 99000 then 2 else (3::nat)"
  let ?labels = "[''Low'', ''Medium'', ''High'', ''Very High'']"
  from income_cell [of h df, OF assms(1-7)] obtain cats where
    get: "getitem (snd (ensure_income_category df col h) df) ''Income_Category'' = Inr cats"
    and ci: "cats ! i =
          (if v < 0 then PFloat NaN
           else if v \<le> 38000 then PStr ''Low''
           else if v \<le> 69000 then PStr ''Medium''
           else if v \<le> 99000 then PStr ''High''
           else PStr ''Very High'')"
    by blast
  from income_cell [of h df, OF assms(1-5) assms(8,9)] obtain cats' where
    get': "getitem (snd (ensure_income_category df col h) df) ''Income_Category'' = Inr cats'"
    and cj': "cats' ! j =
          (if w < 0 then PFloat NaN
           else if w \<le> 38000 then PStr ''Low''
           else if w \<le> 69000 then PStr ''Medium''
           else if w \<le> 99000 then PStr ''High''
           else PStr ''Very High'')"
    by blast
  from get get' have "cats' = cats" by simp
  with cj' have cj: "cats ! j =
          (if w < 0 then PFloat NaN
           else if w \<le> 38000 then PStr ''Low''
           else if w \<le> 69000 then PStr ''Medium''
           else if w \<le> 99000 then PStr ''High''
           else PStr ''Very High'')"
    by simp
  from assms(10,11) have w0: "0 \<le> w" by simp
  have "cats ! i = PStr (?labels ! ?rank v)"
    using ci assms(10) by simp
  moreover have "cats ! j = PStr (?labels ! ?rank w)"
    using cj w0 by simp
  moreover have "?rank v \<le> ?rank w"
    using assms(11) by simp
  moreover have "?rank w < 4" by simp
  ultimately show ?thesis using get by blast
qed

text \<open>
  C8. For the dataframe whose Income column holds 10000, 50000, 90000 and 200000, the
  maximum is 200000 and the derivation appends the Income_Category column Low, Medium,
  High, Very High.
\<close>

theorem income_category_scenario:
  "numeric_values [PInt 10000, PInt 50000, PInt 90000, PInt 200000] =
     Some [Fin 10000, Fin 50000, Fin 90000, Fin 200000] \<and>
   series_max [Fin 10000, Fin 50000, Fin 90000, Fin 200000] = Fin 200000 \<and>
   fst (ensure_income_category 0 ''Income''
          (empty_heap(0 := [(''Income'', [PInt 10000, PInt 50000, PInt 90000, PInt 200000])])))
     = Inr 0 \<and>
   snd (ensure_income_category 0 ''Income''
          (empty_heap(0 := [(''Income'', [PInt 10000, PInt 50000, PInt 90000, PInt 200000])]))) 0
     = [(''Income'', [PInt 10000, PInt 50000, PInt 90000, PInt 200000]),
        (''Income_Category'', [PStr ''Low'', PStr ''Medium'', PStr ''High'', PStr ''Very High''])]"
  by (simp add: ensure_income_category_def columns_def getitem_def setitem_def series_max_def
      pd_cut_def bin_label_def searchsorted_left_def empty_heap_def)


text \<open>
  The bins are not closed on the left: in the dataset 38000, 200000 the income 38000 is
  "Low", not "Medium". With the dataset maximum equal to 99000 the last two edges
  coincide and \<^verbatim>\<open>pd.cut\<close> raises ValueError.
\<close>

theorem income_bins_left_closed_counterexample:
  "getitem (snd (ensure_income_category 0 ''Income''
       (empty_heap(0 := [(''Income'', [PInt 38000, PInt 200000])]))) 0) ''Income_Category''
     = Inr [PStr ''Low'', PStr ''Very High''] \<and>
   getitem (snd (ensure_income_category 0 ''Income''
       (empty_heap(0 := [(''Income'', [PInt 38000, PInt 200000])]))) 0) ''Income_Category''
     \<noteq> Inr [PStr ''Medium'', PStr ''Very High''] \<and>
   series_max [Fin 38000, Fin 99000] = Fin 99000 \<and>
   fst (ensure_income_category 0 ''Income''
       (empty_heap(0 := [(''Income'', [PInt 38000, PInt 99000])]))) = Inl ValueError"
  by (simp add: ensure_income_category_def columns_def getitem_def setitem_def series_max_def
      pd_cut_def bin_label_def searchsorted_left_def empty_heap_def)

theorem income_bins_right_closed_witness:
  "''Income_Category'' \<notin> set (columns
      ((empty_heap(0 := [(''Income'', [PInt 38000, PInt 200000])])) (0::nat))) \<and>
   getitem ((empty_heap(0 := [(''Income'', [PInt 38000, PInt 200000])])) (0::nat)) ''Income''
     = Inr [PInt 38000, PInt 200000] \<and>
   numeric_values [PInt 38000, PInt 200000] = Some [Fin 38000, Fin 200000] \<and>
   series_max [Fin 38000, Fin 200000] = Fin 200000 \<and>
   (99000::real) < 200000 \<and>
   (0::nat) < length [PInt 38000, PInt 200000] \<and>
   to_numeric ([PInt 38000, PInt 200000] ! 0) = Some (Fin 38000) \<and>
   (0::real) \<le> 38000 \<and> (38000::real) \<le> 38000 \<and>
   (\<exists>cats. getitem (snd (ensure_income_category 0 ''Income''
                (empty_heap(0 := [(''Income'', [PInt 38000, PInt 200000])]))) 0)
              ''Income_Category'' = Inr cats \<and>
           cats ! 0 = PStr ''Low'')"
proof -
  let ?h = "empty_heap(0 := [(''Income'', [PInt 38000, PInt 200000])]) :: heap"
  let ?cells = "[PInt 38000, PInt 200000]"
  have h1: "''Income_Category'' \<notin> set (columns (?h 0))"
    by (simp add: columns_def)
  have h2: "getitem (?h 0) ''Income'' = Inr ?cells"
    by (simp add: getitem_def)
  have h3: "numeric_values ?cells = Some [Fin 38000, Fin 200000]"
    by simp
  have h4: "series_max [Fin 38000, Fin 200000] = Fin 200000"
    by (simp add: series_max_def)
  have h5: "(99000::real) < 200000"
    by simp
  have h6: "(0::nat) < length ?cells"
    by simp
  have h7: "to_numeric (?cells ! 0) = Some (Fin 38000)"
    by simp
  from income_bins_right_closed [of ?h 0, OF h1 h2 h3 h4 h5 h6 h7]
  have "\<exists>cats. getitem (snd (ensure_income_category 0 ''Income'' ?h) 0) ''Income_Category''
            = Inr cats \<and> cats ! 0 = PStr ''Low''"
    by auto
  with h1 h2 h3 h4 h5 h6 h7 show ?thesis by simp
qed

text \<open>
  The category can be missing: in the dataset -1, 200000 the income -1 lies below the
  lowest edge and its category is NaN. With the dataset maximum 50000 the edges do not
  increase, \<^verbatim>\<open>pd.cut\<close> raises ValueError, and no category is derived.
\<close>

theorem income_category_missing_counterexample:
  "getitem (snd (ensure_income_category 0 ''Income''
       (empty_heap(0 := [(''Income'', [PInt (-1), PInt 200000])]))) 0) ''Income_Category''
     = Inr [PFloat NaN, PStr ''Very High''] \<and>
   series_max [Fin 10000, Fin 50000] = Fin 50000 \<and>
   ensure_income_category 0 ''Income'' (empty_heap(0 := [(''Income'', [PInt 10000, PInt 50000])]))
     = (Inl ValueError, empty_heap(0 := [(''Income'', [PInt 10000, PInt 50000])]))"
  by (simp add: ensure_income_category_def columns_def getitem_def setitem_def series_max_def
      pd_cut_def bin_label_def searchsorted_left_def empty_heap_def float_eq_def)

theorem income_category_labelled_monotone_witness:
  "''Income_Category'' \<notin> set (columns
      ((empty_heap(0 := [(''Income'', [PInt 50000, PInt 200000])])) (0::nat))) \<and>
   getitem ((empty_heap(0 := [(''Income'', [PInt 50000, PInt 200000])])) (0::nat)) ''Income''
     = Inr [PInt 50000, PInt 200000] \<and>
   numeric_values [PInt 50000, PInt 200000] = Some [Fin 50000, Fin 200000] \<and>
   series_max [Fin 50000, Fin 200000] = Fin 200000 \<and>
   (99000::real) < 200000 \<and>
   (0::nat) < length [PInt 50000, PInt 200000] \<and>
   to_numeric ([PInt 50000, PInt 200000] ! 0) = Some (Fin 50000) \<and>
   (1::nat) < length [PInt 50000, PInt 200000] \<and>
   to_numeric ([PInt 50000, PInt 200000] ! 1) = Some (Fin 200000) \<and>
   (0::real) \<le> 50000 \<and> (50000::real) \<le> 200000 \<and>
   (\<exists>cats a b. getitem (snd (ensure_income_category 0 ''Income''
                (empty_heap(0 := [(''Income'', [PInt 50000, PInt 200000])]))) 0)
              ''Income_Category'' = Inr cats \<and>
           cats ! 0 = PStr ([''Low'', ''Medium'', ''High'', ''Very High''] ! a) \<and>
           cats ! 1 = PStr ([''Low'', ''Medium'', ''High'', ''Very High''] ! b) \<and>
           a \<le> b \<and> b < 4)"
proof -
  let ?h = "empty_heap(0 := [(''Income'', [PInt 50000, PInt 200000])]) :: heap"
  let ?cells = "[PInt 50000, PInt 200000]"
  have h1: "''Income_Category'' \<notin> set (columns (?h 0))"
    by (simp add: columns_def)
  have h2: "getitem (?h 0) ''Income'' = Inr ?cells"
    by (simp add: getitem_def)
  have h3: "numeric_values ?cells = Some [Fin 50000, Fin 200000]"
    by simp
  have h4: "series_max [Fin 50000, Fin 200000] = Fin 200000"
    by (simp add: series_max_def)
  have h5: "(99000::real) < 200000"
    by simp
  have h6: "(0::nat) < length ?cells"
    by simp
  have h7: "to_numeric (?cells ! 0) = Some (Fin 50000)"
    by simp
  have h8: "(1::nat) < length ?cells"
    by simp
  have h9: "to_numeric (?cells ! 1) = Some (Fin 200000)"
    by simp
  have h10: "(0::real) \<le> 50000"
    by simp
  have h11: "(50000::real) \<le> 200000"
    by simp
  note income_category_labelled_monotone [of ?h 0, OF h1 h2 h3 h4 h5 h6 h7 h8 h9 h10 h11]
  with h1 h2 h3 h4 h5 h6 h7 h8 h9 h10 h11 show ?thesis by simp
qed

end
